theory Spec2Isabelle
  imports Main "HOL-Library.Word"
begin

section \<open>The contract PrivateSetIntersectionFHE: data model\<close>

text \<open>
  Solidity value types: \<open>uint256\<close> and \<open>bytes32\<close> are 256-bit words, an \<open>address\<close> is a
  160-bit word, \<open>bytes\<close> is a byte sequence. A \<open>mapping\<close> is total: a key never written
  reads as the zero value of its type, so mappings are total functions.
\<close>

type_synonym uint256 = "256 word"
type_synonym bytes32 = "256 word"
type_synonym address = "160 word"
type_synonym bytes = "8 word list"

text \<open>
  The two structs. Field names carry a prefix (\<open>es_\<close>, \<open>rq_\<close>) because both structs have
  an \<open>id\<close> and a \<open>timestamp\<close>, and \<open>id\<close> is a constant of HOL.
\<close>

record EncryptedSet =
  es_id :: uint256
  es_owner :: address
  es_items :: "bytes32 list"
  es_timestamp :: uint256

record PSIRequest =
  rq_id :: uint256
  rq_requester :: address
  rq_participants :: "address list"
  rq_sizeOnly :: bool
  rq_timestamp :: uint256

text \<open>The five state variables of the contract.\<close>

record storage =
  setCount :: uint256
  ownerToSetId :: "address \<Rightarrow> uint256"
  encryptedSets :: "uint256 \<Rightarrow> EncryptedSet"
  psiRequests :: "uint256 \<Rightarrow> PSIRequest"
  psiResults :: "uint256 \<Rightarrow> bytes"

definition zero_EncryptedSet :: EncryptedSet where
  "zero_EncryptedSet = \<lparr>es_id = 0, es_owner = 0, es_items = [], es_timestamp = 0\<rparr>"

definition zero_PSIRequest :: PSIRequest where
  "zero_PSIRequest =
     \<lparr>rq_id = 0, rq_requester = 0, rq_participants = [], rq_sizeOnly = False, rq_timestamp = 0\<rparr>"

text \<open>The storage of the freshly deployed contract: every slot is zero.\<close>

definition init_storage :: storage where
  "init_storage =
     \<lparr>setCount = 0, ownerToSetId = (\<lambda>_. 0), encryptedSets = (\<lambda>_. zero_EncryptedSet),
      psiRequests = (\<lambda>_. zero_PSIRequest), psiResults = (\<lambda>_. [])\<rparr>"

datatype event =
  EncryptedSetSubmitted uint256
| PSIRequested uint256
| PSIResultReceived uint256

text \<open>
  Ways a call can abort: a failed \<open>require\<close> with its message, a compiler-inserted panic
  with its code (0x11 arithmetic overflow, 0x32 index out of bounds; the pragma is
  \<open>^0.8.24\<close>, so arithmetic is checked), and a revert inside the FHE library.
\<close>

datatype error =
  Require string
| Panic nat
| CheckSignaturesFailed
| RequestComputationFailed

text \<open>The callback selector \<open>this.receivePSIResult.selector\<close>, kept symbolic.\<close>

datatype selector = receivePSIResult_selector

text \<open>
  The transaction context (\<open>msg.sender\<close>, \<open>block.timestamp\<close>) and what the code calls but
  does not define: the builtin \<open>keccak256\<close> and the two functions of the imported FHE
  library, \<open>FHE.requestComputation\<close> (returns the engine's request token, or reverts) and
  \<open>FHE.checkSignatures\<close> (returns normally on \<open>True\<close>, reverts on \<open>False\<close>). They are
  parameters of the model; every theorem holds for all of them.
\<close>

record env =
  msg_sender :: address
  block_timestamp :: uint256
  keccak256 :: "bytes \<Rightarrow> uint256"
  FHE_requestComputation :: "bytes32 list \<Rightarrow> selector \<Rightarrow> error + uint256"
  FHE_checkSignatures :: "uint256 \<Rightarrow> bytes \<Rightarrow> bytes \<Rightarrow> bool"

text \<open>
  What a call that did not revert leaves behind besides the new storage: its return
  value, the events it emitted, and the ciphertext arrays it handed to the engine.
\<close>

record 'r receipt =
  returned :: 'r
  logs :: "event list"
  dispatched :: "(bytes32 list \<times> selector) list"

text \<open>
  A function body runs on the storage and either aborts or yields the storage it has
  written and a receipt. The EVM discards every write of an aborted call: \<open>transact\<close>
  gives the storage after the call and the caller's view of it.
\<close>

type_synonym 'r body = "storage \<Rightarrow> error + (storage \<times> 'r receipt)"

definition transact :: "'r body \<Rightarrow> storage \<Rightarrow> storage \<times> (error + 'r receipt)" where
  "transact f s = (case f s of Inl e \<Rightarrow> (s, Inl e) | Inr (s', r) \<Rightarrow> (s', Inr r))"

section \<open>submitEncryptedSet\<close>

text \<open>The loop \<open>for (i = 0; i < items.length; i++) s.items.push(items[i])\<close>.\<close>

fun push_items :: "bytes32 list \<Rightarrow> bytes32 list \<Rightarrow> bytes32 list" where
  "push_items stored [] = stored"
| "push_items stored (x # xs) = push_items (stored @ [x]) xs"

definition submitEncryptedSet_body :: "env \<Rightarrow> bytes32 list \<Rightarrow> unit body" where
  "submitEncryptedSet_body e items s =
     (if 2 ^ 256 \<le> unat (setCount s) + 1 then Inl (Panic 0x11)
      else
        let s1 = s\<lparr>setCount := setCount s + 1\<rparr>;
            newId = setCount s1;
            r = (encryptedSets s1 newId)
                  \<lparr>es_id := newId, es_owner := msg_sender e,
                   es_timestamp := block_timestamp e\<rparr>;
            r' = r\<lparr>es_items := push_items (es_items r) items\<rparr>;
            s2 = s1\<lparr>encryptedSets := (encryptedSets s1)(newId := r')\<rparr>;
            s3 = s2\<lparr>ownerToSetId := (ownerToSetId s2)(msg_sender e := newId)\<rparr>
        in Inr (s3, \<lparr>returned = (), logs = [EncryptedSetSubmitted newId], dispatched = []\<rparr>))"

definition submitEncryptedSet ::
  "env \<Rightarrow> bytes32 list \<Rightarrow> storage \<Rightarrow> storage \<times> (error + unit receipt)" where
  "submitEncryptedSet e items = transact (submitEncryptedSet_body e items)"

section \<open>requestMultiPSI\<close>

text \<open>
  \<open>abi.encodePacked(msg.sender, block.timestamp, participants)\<close>: the address in 20
  bytes, the timestamp in 32, and each element of the array padded to 32 bytes, all
  big-endian.
\<close>

definition be_bytes :: "nat \<Rightarrow> 'a::len word \<Rightarrow> bytes" where
  "be_bytes n w = map (\<lambda>i. ucast (drop_bit (8 * (n - 1 - i)) w)) [0..<n]"

definition encodePacked :: "address \<Rightarrow> uint256 \<Rightarrow> address list \<Rightarrow> bytes" where
  "encodePacked a t ps =
     be_bytes 20 a @ be_bytes 32 t @ concat (map (\<lambda>p. be_bytes 32 (ucast p :: uint256)) ps)"

text \<open>
  The first loop: every participant must have a set id other than 0, and the lengths of
  the sets add up in \<open>totalItems\<close>, a \<open>uint\<close> under checked addition.
\<close>

fun count_items :: "storage \<Rightarrow> address list \<Rightarrow> nat \<Rightarrow> error + nat" where
  "count_items s [] totalItems = Inr totalItems"
| "count_items s (p # ps) totalItems =
     (let sid = ownerToSetId s p in
      if sid = 0 then Inl (Require ''Participant missing set'')
      else let n = length (es_items (encryptedSets s sid)) in
        if 2 ^ 256 \<le> totalItems + n then Inl (Panic 0x11)
        else count_items s ps (totalItems + n))"

text \<open>
  The second loop. The inner loop writes \<open>allCiphertexts[idx] = items[j]\<close> and
  increments \<open>idx\<close>; a write past the end of the memory array panics.
\<close>

fun copy_items :: "bytes32 list \<Rightarrow> bytes32 list \<Rightarrow> nat \<Rightarrow> error + (bytes32 list \<times> nat)" where
  "copy_items [] allCiphertexts idx = Inr (allCiphertexts, idx)"
| "copy_items (x # xs) allCiphertexts idx =
     (if idx < length allCiphertexts
      then copy_items xs (allCiphertexts[idx := x]) (idx + 1)
      else Inl (Panic 0x32))"

fun gather_items ::
  "storage \<Rightarrow> address list \<Rightarrow> bytes32 list \<Rightarrow> nat \<Rightarrow> error + (bytes32 list \<times> nat)" where
  "gather_items s [] allCiphertexts idx = Inr (allCiphertexts, idx)"
| "gather_items s (p # ps) allCiphertexts idx =
     (let sid = ownerToSetId s p in
      case copy_items (es_items (encryptedSets s sid)) allCiphertexts idx of
        Inl err \<Rightarrow> Inl err
      | Inr (allCiphertexts', idx') \<Rightarrow> gather_items s ps allCiphertexts' idx')"

definition requestMultiPSI_body :: "env \<Rightarrow> address list \<Rightarrow> bool \<Rightarrow> uint256 body" where
  "requestMultiPSI_body e participants sizeOnly s =
     (if \<not> 2 \<le> length participants then Inl (Require ''Need >=2 participants'')
      else
        let reqId = keccak256 e (encodePacked (msg_sender e) (block_timestamp e) participants);
            r = (psiRequests s reqId)
                  \<lparr>rq_id := reqId, rq_requester := msg_sender e,
                   rq_participants := participants, rq_sizeOnly := sizeOnly,
                   rq_timestamp := block_timestamp e\<rparr>;
            s1 = s\<lparr>psiRequests := (psiRequests s)(reqId := r)\<rparr>
        in case count_items s1 participants 0 of
             Inl err \<Rightarrow> Inl err
           | Inr totalItems \<Rightarrow>
              (case gather_items s1 participants (replicate totalItems 0) 0 of
                 Inl err \<Rightarrow> Inl err
               | Inr (allCiphertexts, idx) \<Rightarrow>
                  (case FHE_requestComputation e allCiphertexts receivePSIResult_selector of
                     Inl err \<Rightarrow> Inl err
                   | Inr fheReq \<Rightarrow>
                       let s2 = s1\<lparr>psiRequests :=
                                     (psiRequests s1)(fheReq := psiRequests s1 reqId)\<rparr>
                       in Inr (s2, \<lparr>returned = reqId, logs = [PSIRequested reqId],
                                    dispatched =
                                      [(allCiphertexts, receivePSIResult_selector)]\<rparr>))))"

definition requestMultiPSI ::
  "env \<Rightarrow> address list \<Rightarrow> bool \<Rightarrow> storage \<Rightarrow> storage \<times> (error + uint256 receipt)" where
  "requestMultiPSI e participants sizeOnly = transact (requestMultiPSI_body e participants sizeOnly)"

section \<open>receivePSIResult and the views\<close>

definition receivePSIResult_body :: "env \<Rightarrow> uint256 \<Rightarrow> bytes \<Rightarrow> bytes \<Rightarrow> unit body" where
  "receivePSIResult_body e requestId encryptedResult proof s =
     (if \<not> FHE_checkSignatures e requestId encryptedResult proof then Inl CheckSignaturesFailed
      else
        let s1 = s\<lparr>psiResults := (psiResults s)(requestId := encryptedResult)\<rparr>
        in Inr (s1, \<lparr>returned = (), logs = [PSIResultReceived requestId], dispatched = []\<rparr>))"

definition receivePSIResult ::
  "env \<Rightarrow> uint256 \<Rightarrow> bytes \<Rightarrow> bytes \<Rightarrow> storage \<Rightarrow> storage \<times> (error + unit receipt)" where
  "receivePSIResult e requestId encryptedResult proof =
     transact (receivePSIResult_body e requestId encryptedResult proof)"

definition getEncryptedPSIResult :: "storage \<Rightarrow> uint256 \<Rightarrow> bytes" where
  "getEncryptedPSIResult s requestId = psiResults s requestId"

definition getSetId :: "storage \<Rightarrow> address \<Rightarrow> uint256" where
  "getSetId s owner = ownerToSetId s owner"

definition getEncryptedSetItems :: "storage \<Rightarrow> uint256 \<Rightarrow> bytes32 list" where
  "getEncryptedSetItems s setId = es_items (encryptedSets s setId)"

section \<open>Derived notions\<close>

text \<open>
  The handles of a participant's current set, as a client reads them through the two
  views: \<open>getEncryptedSetItems(getSetId(p))\<close>.
\<close>

definition current_items :: "storage \<Rightarrow> address \<Rightarrow> bytes32 list" where
  "current_items s p = getEncryptedSetItems s (getSetId s p)"

text \<open>
  The request struct after the five field assignments at the head of \<open>requestMultiPSI\<close>:
  every field is assigned, so nothing of the slot's earlier content remains.
\<close>

definition request_record :: "env \<Rightarrow> address list \<Rightarrow> bool \<Rightarrow> PSIRequest" where
  "request_record e ps so =
     \<lparr>rq_id = keccak256 e (encodePacked (msg_sender e) (block_timestamp e) ps),
      rq_requester = msg_sender e, rq_participants = ps, rq_sizeOnly = so,
      rq_timestamp = block_timestamp e\<rparr>"

subsection \<open>Histories of calls\<close>

text \<open>
  The contract's life is a sequence of external calls, each in its own transaction
  context, starting from the deployed storage. \<open>run\<close> threads the storage through the
  calls and collects the events of those that did not revert.
\<close>

datatype call =
  Call_submitEncryptedSet env "bytes32 list"
| Call_requestMultiPSI env "address list" bool
| Call_receivePSIResult env uint256 bytes bytes

fun emitted :: "error + 'r receipt \<Rightarrow> event list" where
  "emitted (Inl err) = []"
| "emitted (Inr rc) = logs rc"

fun perform :: "call \<Rightarrow> storage \<Rightarrow> storage \<times> event list" where
  "perform (Call_submitEncryptedSet e items) s =
     (case submitEncryptedSet e items s of (s', out) \<Rightarrow> (s', emitted out))"
| "perform (Call_requestMultiPSI e participants sizeOnly) s =
     (case requestMultiPSI e participants sizeOnly s of (s', out) \<Rightarrow> (s', emitted out))"
| "perform (Call_receivePSIResult e requestId encryptedResult proof) s =
     (case receivePSIResult e requestId encryptedResult proof s of (s', out) \<Rightarrow> (s', emitted out))"

fun run :: "call list \<Rightarrow> storage \<times> event list \<Rightarrow> storage \<times> event list" where
  "run [] st = st"
| "run (c # cs) (s, lg) = (case perform c s of (s', evs) \<Rightarrow> run cs (s', lg @ evs))"

text \<open>The set ids announced so far, in order.\<close>

fun submitted_ids :: "event list \<Rightarrow> uint256 list" where
  "submitted_ids [] = []"
| "submitted_ids (EncryptedSetSubmitted i # evs) = i # submitted_ids evs"
| "submitted_ids (ev # evs) = submitted_ids evs"

text \<open>
  The invariant behind the counter: every announced id is at most \<open>setCount\<close>, and no
  set slot above \<open>setCount\<close> has been written.
\<close>

definition ids_in_use :: "storage \<Rightarrow> event list \<Rightarrow> bool" where
  "ids_in_use s lg \<longleftrightarrow>
     (\<forall>i \<in> set (submitted_ids lg). unat i \<le> unat (setCount s))
     \<and> (\<forall>k. unat (setCount s) < unat k \<longrightarrow> encryptedSets s k = zero_EncryptedSet)"



subsection \<open>A concrete scenario\<close>

text \<open>
  Three accounts and a transaction context for running the contract on concrete inputs.
  The context fixes stand-ins for what lies outside the contract: the hash is the length
  of its input, the engine's token is the number of handles it was given, and a proof
  passes \<open>FHE.checkSignatures\<close> exactly when it is the single byte 0x2A. Alice submits
  three handles, then Bob four, then Alice requests the intersection of both, then the
  result \<open>[0x02]\<close> arrives with a passing proof.
\<close>

definition alice :: address where "alice = 0xA11CE"

definition bob :: address where "bob = 0xB0B"

definition carol :: address where "carol = 0xCA401"

definition demo_env :: "address \<Rightarrow> uint256 \<Rightarrow> env" where
  "demo_env a t =
     \<lparr>msg_sender = a, block_timestamp = t,
      keccak256 = (\<lambda>bs. of_nat (length bs)),
      FHE_requestComputation = (\<lambda>cts sel. Inr (of_nat (length cts))),
      FHE_checkSignatures = (\<lambda>requestId encryptedResult proof. proof = [0x2A])\<rparr>"

text \<open>
  The stand-in checker of \<open>demo_env\<close> looks at the proof only. A second context is
  stricter on both sides of the engine: it takes a request only for the seven handles of
  Alice's set followed by Bob's, answers with the token 7, and its checker passes a
  callback only under that token.
\<close>

definition strict_env :: "address \<Rightarrow> uint256 \<Rightarrow> env" where
  "strict_env a t =
     \<lparr>msg_sender = a, block_timestamp = t,
      keccak256 = (\<lambda>bs. of_nat (length bs)),
      FHE_requestComputation =
        (\<lambda>cts sel. if cts = [0x11, 0x22, 0x33, 0x22, 0x33, 0x44, 0x55] then Inr 7
                    else Inl RequestComputationFailed),
      FHE_checkSignatures = (\<lambda>requestId encryptedResult proof. requestId = 7 \<and> proof = [0x2A])\<rparr>"


definition storage_A :: storage where
  "storage_A = fst (submitEncryptedSet (demo_env alice 1000) [0x11, 0x22, 0x33] init_storage)"

definition storage_AB :: storage where
  "storage_AB = fst (submitEncryptedSet (demo_env bob 1001) [0x22, 0x33, 0x44, 0x55] storage_A)"

definition demo_request :: PSIRequest where
  "demo_request =
     \<lparr>rq_id = 116, rq_requester = alice, rq_participants = [alice, bob], rq_sizeOnly = False,
      rq_timestamp = 1002\<rparr>"

definition storage_req :: storage where
  "storage_req = fst (requestMultiPSI (demo_env alice 1002) [alice, bob] False storage_AB)"

definition storage_done :: storage where
  "storage_done = fst (receivePSIResult (demo_env carol 1003) 116 [0x02] [0x2A] storage_req)"

section \<open>The counting and gathering passes\<close>

lemma push_items_append: "push_items stored xs = stored @ xs"
  by (induction xs arbitrary: stored) auto

lemma copy_items_fits:
  "idx + length xs \<le> length arr \<Longrightarrow>
   copy_items xs arr idx = Inr (take idx arr @ xs @ drop (idx + length xs) arr, idx + length xs)"
proof (induction xs arbitrary: arr idx)
  case Nil
  then show ?case by simp
next
  case (Cons x xs)
  then have "idx < length arr" by simp
  moreover have "take (Suc idx) (arr[idx := x]) = take idx arr @ [x]"
    using \<open>idx < length arr\<close> by (simp add: take_Suc_conv_app_nth)
  moreover have "drop (Suc (idx + length xs)) (arr[idx := x]) = drop (Suc (idx + length xs)) arr"
    by simp
  ultimately show ?case using Cons by simp
qed

lemma count_items_total:
  "count_items s ps t = Inr n \<Longrightarrow> n = t + length (concat (map (current_items s) ps))"
proof (induction ps arbitrary: t)
  case Nil
  then show ?case by simp
next
  case (Cons p ps)
  let ?k = "length (es_items (encryptedSets s (ownerToSetId s p)))"
  from Cons.prems have "count_items s ps (t + ?k) = Inr n"
    by (simp add: Let_def split: if_splits)
  from Cons.IH [OF this] show ?case
    by (simp add: current_items_def getEncryptedSetItems_def getSetId_def)
qed

lemma count_items_has_set:
  "count_items s ps t = Inr n \<Longrightarrow> p \<in> set ps \<Longrightarrow> ownerToSetId s p \<noteq> 0"
  by (induction ps arbitrary: t) (auto simp: Let_def split: if_splits)

lemma gather_items_Cons:
  "gather_items s (p # ps) arr idx =
     (case copy_items (current_items s p) arr idx of
        Inl err \<Rightarrow> Inl err
      | Inr (arr', idx') \<Rightarrow> gather_items s ps arr' idx')"
  by (simp add: Let_def current_items_def getEncryptedSetItems_def getSetId_def)

lemma gather_items_fits:
  "idx + length (concat (map (current_items s) ps)) \<le> length arr \<Longrightarrow>
   gather_items s ps arr idx =
     Inr (take idx arr @ concat (map (current_items s) ps)
            @ drop (idx + length (concat (map (current_items s) ps))) arr,
          idx + length (concat (map (current_items s) ps)))"
proof (induction ps arbitrary: arr idx)
  case Nil
  then show ?case by simp
next
  case (Cons p ps)
  let ?xs = "current_items s p"
  let ?rest = "concat (map (current_items s) ps)"
  have fit: "idx + length ?xs \<le> length arr" using Cons.prems by simp
  let ?arr' = "take idx arr @ ?xs @ drop (idx + length ?xs) arr"
  have len: "length ?arr' = length arr" using fit by simp
  have step: "copy_items ?xs arr idx = Inr (?arr', idx + length ?xs)"
    using copy_items_fits [OF fit] .
  have fit': "(idx + length ?xs) + length ?rest \<le> length ?arr'"
    using Cons.prems len by simp
  have tk: "take (idx + length ?xs) ?arr' = take idx arr @ ?xs"
    using fit by simp
  have dr: "drop (idx + (length ?xs + length ?rest)) ?arr' = drop (idx + (length ?xs + length ?rest)) arr"
    using fit by (simp add: ac_simps)
  have "gather_items s (p # ps) arr idx = gather_items s ps ?arr' (idx + length ?xs)"
    by (simp only: gather_items_Cons step sum.case prod.case)
  also have "\<dots> = Inr (take (idx + length ?xs) ?arr' @ ?rest
                        @ drop (idx + length ?xs + length ?rest) ?arr',
                      idx + length ?xs + length ?rest)"
    using Cons.IH [OF fit'] .
  also have "\<dots> = Inr (take idx arr @ (?xs @ ?rest)
                        @ drop (idx + (length ?xs + length ?rest)) arr,
                      idx + (length ?xs + length ?rest))"
    by (simp only: tk dr append_assoc add.assoc)
  finally show ?case by simp
qed


lemma count_items_psiRequests [simp]:
  "count_items (s\<lparr>psiRequests := f\<rparr>) ps t = count_items s ps t"
  by (induction ps arbitrary: t) (simp_all add: Let_def)

lemma gather_items_psiRequests [simp]:
  "gather_items (s\<lparr>psiRequests := f\<rparr>) ps arr idx = gather_items s ps arr idx"
  by (induction ps arbitrary: arr idx) (simp_all add: Let_def split: sum.splits)

lemma gather_items_after_count:
  assumes "count_items s ps 0 = Inr n"
  shows "gather_items s ps (replicate n 0) 0 = Inr (concat (map (current_items s) ps), n)"
proof -
  have n: "n = length (concat (map (current_items s) ps))"
    using count_items_total [OF assms] by simp
  have "0 + length (concat (map (current_items s) ps)) \<le> length (replicate n (0::bytes32))"
    by (simp add: n)
  from gather_items_fits [OF this] show ?thesis
    by (simp add: n)
qed

lemma count_items_ok:
  "\<forall>p \<in> set ps. ownerToSetId s p \<noteq> 0 \<Longrightarrow>
   t + length (concat (map (current_items s) ps)) < 2 ^ 256 \<Longrightarrow>
   count_items s ps t = Inr (t + length (concat (map (current_items s) ps)))"
proof (induction ps arbitrary: t)
  case Nil
  then show ?case by simp
next
  case (Cons p ps)
  let ?k = "length (es_items (encryptedSets s (ownerToSetId s p)))"
  have k: "length (current_items s p) = ?k"
    by (simp add: current_items_def getEncryptedSetItems_def getSetId_def)
  have b: "(t + ?k) + length (concat (map (current_items s) ps)) < 2 ^ 256"
    using Cons.prems(2) by (simp add: k add.assoc)
  then have small: "\<not> (2::nat) ^ 256 \<le> t + ?k" by linarith
  have "count_items s ps (t + ?k) = Inr ((t + ?k) + length (concat (map (current_items s) ps)))"
    using Cons.IH [OF _ b] Cons.prems(1) by simp
  moreover have "ownerToSetId s p \<noteq> 0" using Cons.prems(1) by simp
  ultimately show ?case using small
    by (simp add: Let_def k add.assoc del: power_numeral)
qed

lemma count_items_missing:
  "\<exists>p \<in> set ps. ownerToSetId s p = 0 \<Longrightarrow>
   t + length (concat (map (current_items s) ps)) < 2 ^ 256 \<Longrightarrow>
   count_items s ps t = Inl (Require ''Participant missing set'')"
proof (induction ps arbitrary: t)
  case Nil
  then show ?case by simp
next
  case (Cons p ps)
  let ?k = "length (es_items (encryptedSets s (ownerToSetId s p)))"
  have k: "length (current_items s p) = ?k"
    by (simp add: current_items_def getEncryptedSetItems_def getSetId_def)
  show ?case
  proof (cases "ownerToSetId s p = 0")
    case True
    then show ?thesis by simp
  next
    case False
    then have ex: "\<exists>p \<in> set ps. ownerToSetId s p = 0" using Cons.prems(1) by auto
    have b: "(t + ?k) + length (concat (map (current_items s) ps)) < 2 ^ 256"
      using Cons.prems(2) by (simp add: k add.assoc)
    then have small: "\<not> (2::nat) ^ 256 \<le> t + ?k" by linarith
    from Cons.IH [OF ex b] False small show ?thesis
      by (simp add: Let_def del: power_numeral)
  qed
qed

section \<open>Outcomes of the three functions\<close>

lemma transact_Inr: "transact f s = (s', Inr r) \<longleftrightarrow> f s = Inr (s', r)"
  by (auto simp: transact_def split: sum.splits)

lemma transact_Inl: "transact f s = (s', Inl err) \<longleftrightarrow> f s = Inl err \<and> s' = s"
  by (auto simp: transact_def split: sum.splits)

lemma requestMultiPSI_body_Inr:
  assumes "requestMultiPSI_body e ps so s = Inr (s', rc)"
  shows "2 \<le> length ps"
    and "\<forall>p \<in> set ps. ownerToSetId s p \<noteq> 0"
    and "rc = \<lparr>returned = keccak256 e (encodePacked (msg_sender e) (block_timestamp e) ps),
               logs = [PSIRequested (keccak256 e (encodePacked (msg_sender e) (block_timestamp e) ps))],
               dispatched = [(concat (map (current_items s) ps), receivePSIResult_selector)]\<rparr>"
    and "\<exists>fheReq. FHE_requestComputation e (concat (map (current_items s) ps))
                     receivePSIResult_selector = Inr fheReq
          \<and> s' = s\<lparr>psiRequests := (psiRequests s)
                 (keccak256 e (encodePacked (msg_sender e) (block_timestamp e) ps) := request_record e ps so,
                  fheReq := request_record e ps so)\<rparr>"
proof -
  let ?reqId = "keccak256 e (encodePacked (msg_sender e) (block_timestamp e) ps)"
  let ?cts = "concat (map (current_items s) ps)"
  show len: "2 \<le> length ps"
    using assms by (simp add: requestMultiPSI_body_def split: if_splits)
  obtain n where n: "count_items s ps 0 = Inr n"
    using assms len by (auto simp: requestMultiPSI_body_def Let_def split: sum.splits)
  show "\<forall>p \<in> set ps. ownerToSetId s p \<noteq> 0"
    using count_items_has_set [OF n] by blast
  have g: "gather_items s ps (replicate n 0) 0 = Inr (?cts, n)"
    using gather_items_after_count [OF n] .
  obtain fheReq where f: "FHE_requestComputation e ?cts receivePSIResult_selector = Inr fheReq"
    using assms len n g by (auto simp: requestMultiPSI_body_def Let_def split: sum.splits)
  have rec: "(psiRequests s ?reqId)
                  \<lparr>rq_id := ?reqId, rq_requester := msg_sender e,
                   rq_participants := ps, rq_sizeOnly := so,
                   rq_timestamp := block_timestamp e\<rparr> = request_record e ps so"
    by (simp add: request_record_def)
  from assms len n g f rec
  show "rc = \<lparr>returned = ?reqId, logs = [PSIRequested ?reqId],
               dispatched = [(?cts, receivePSIResult_selector)]\<rparr>"
    by (simp add: requestMultiPSI_body_def Let_def)
  from assms len n g f rec
  have "s' = s\<lparr>psiRequests := (psiRequests s)
                 (?reqId := request_record e ps so, fheReq := request_record e ps so)\<rparr>"
    by (simp add: requestMultiPSI_body_def Let_def)
  with f show "\<exists>fheReq. FHE_requestComputation e ?cts receivePSIResult_selector = Inr fheReq
          \<and> s' = s\<lparr>psiRequests := (psiRequests s)
                 (?reqId := request_record e ps so, fheReq := request_record e ps so)\<rparr>"
    by blast
qed

lemma requestMultiPSI_body_ok:
  assumes "2 \<le> length ps"
    and "\<forall>p \<in> set ps. ownerToSetId s p \<noteq> 0"
    and "length (concat (map (current_items s) ps)) < 2 ^ 256"
    and "FHE_requestComputation e (concat (map (current_items s) ps)) receivePSIResult_selector
           = Inr fheReq"
  shows "requestMultiPSI_body e ps so s =
     Inr (s\<lparr>psiRequests := (psiRequests s)
                 (keccak256 e (encodePacked (msg_sender e) (block_timestamp e) ps) := request_record e ps so,
                  fheReq := request_record e ps so)\<rparr>,
          \<lparr>returned = keccak256 e (encodePacked (msg_sender e) (block_timestamp e) ps),
           logs = [PSIRequested (keccak256 e (encodePacked (msg_sender e) (block_timestamp e) ps))],
           dispatched = [(concat (map (current_items s) ps), receivePSIResult_selector)]\<rparr>)"
proof -
  let ?n = "length (concat (map (current_items s) ps))"
  have n: "count_items s ps 0 = Inr ?n"
    using count_items_ok [OF assms(2), of 0] assms(3) by simp
  have g: "gather_items s ps (replicate ?n 0) 0 = Inr (concat (map (current_items s) ps), ?n)"
    using gather_items_after_count [OF n] .
  have rec: "(psiRequests s (keccak256 e (encodePacked (msg_sender e) (block_timestamp e) ps)))
                  \<lparr>rq_id := keccak256 e (encodePacked (msg_sender e) (block_timestamp e) ps),
                   rq_requester := msg_sender e,
                   rq_participants := ps, rq_sizeOnly := so,
                   rq_timestamp := block_timestamp e\<rparr> = request_record e ps so"
    by (simp add: request_record_def)
  show ?thesis
    using assms(1) n g assms(4) rec
    by (simp add: requestMultiPSI_body_def Let_def)
qed

lemma requestMultiPSI_body_missing:
  assumes "2 \<le> length ps"
    and "\<exists>p \<in> set ps. ownerToSetId s p = 0"
    and "length (concat (map (current_items s) ps)) < 2 ^ 256"
  shows "requestMultiPSI_body e ps so s = Inl (Require ''Participant missing set'')"
  using assms(1) count_items_missing [OF assms(2), of 0] assms(3)
  by (simp add: requestMultiPSI_body_def Let_def)

lemma requestMultiPSI_ok:
  assumes "2 \<le> length ps"
    and "\<forall>p \<in> set ps. ownerToSetId s p \<noteq> 0"
    and "length (concat (map (current_items s) ps)) < 2 ^ 256"
    and "FHE_requestComputation e (concat (map (current_items s) ps)) receivePSIResult_selector
           = Inr fheReq"
  shows "requestMultiPSI e ps so s =
     (s\<lparr>psiRequests := (psiRequests s)
                 (keccak256 e (encodePacked (msg_sender e) (block_timestamp e) ps) := request_record e ps so,
                  fheReq := request_record e ps so)\<rparr>,
      Inr \<lparr>returned = keccak256 e (encodePacked (msg_sender e) (block_timestamp e) ps),
           logs = [PSIRequested (keccak256 e (encodePacked (msg_sender e) (block_timestamp e) ps))],
           dispatched = [(concat (map (current_items s) ps), receivePSIResult_selector)]\<rparr>)"
  unfolding requestMultiPSI_def transact_Inr
  using assms by (rule requestMultiPSI_body_ok)

lemma submitEncryptedSet_ok:
  assumes "unat (setCount s) + 1 < 2 ^ 256"
  shows "submitEncryptedSet e items s =
     (s\<lparr>setCount := setCount s + 1,
        encryptedSets := (encryptedSets s)(setCount s + 1 :=
           (encryptedSets s (setCount s + 1))
             \<lparr>es_id := setCount s + 1, es_owner := msg_sender e,
              es_timestamp := block_timestamp e,
              es_items := es_items (encryptedSets s (setCount s + 1)) @ items\<rparr>),
        ownerToSetId := (ownerToSetId s)(msg_sender e := setCount s + 1)\<rparr>,
      Inr \<lparr>returned = (), logs = [EncryptedSetSubmitted (setCount s + 1)], dispatched = []\<rparr>)"
proof -
  have "\<not> (2::nat) ^ 256 \<le> unat (setCount s) + 1" using assms by linarith
  then show ?thesis
    by (simp add: submitEncryptedSet_def submitEncryptedSet_body_def transact_def Let_def
        push_items_append del: power_numeral)
qed

lemma unat_succ: "unat (w :: uint256) + 1 < 2 ^ 256 \<Longrightarrow> unat (w + 1) = unat w + 1"
  by (simp add: unat_word_ariths)

lemma submitEncryptedSet_overflow:
  assumes "unat (setCount s) + 1 = 2 ^ 256"
  shows "submitEncryptedSet e items s = (s, Inl (Panic 0x11))"
proof -
  have "(2::nat) ^ 256 \<le> unat (setCount s) + 1" using assms by linarith
  then show ?thesis
    by (simp add: submitEncryptedSet_def submitEncryptedSet_body_def transact_def del: power_numeral)
qed

lemma unat_uint256_bound: "unat (w :: uint256) + 1 \<le> 2 ^ 256"
  using unsigned_less [of w, where 'a = nat] by simp

lemma receivePSIResult_ok:
  "FHE_checkSignatures e requestId encryptedResult proof \<Longrightarrow>
   receivePSIResult e requestId encryptedResult proof s =
     (s\<lparr>psiResults := (psiResults s)(requestId := encryptedResult)\<rparr>,
      Inr \<lparr>returned = (), logs = [PSIResultReceived requestId], dispatched = []\<rparr>)"
  by (simp add: receivePSIResult_def receivePSIResult_body_def transact_def)

lemma receivePSIResult_fails:
  "\<not> FHE_checkSignatures e requestId encryptedResult proof \<Longrightarrow>
   receivePSIResult e requestId encryptedResult proof s = (s, Inl CheckSignaturesFailed)"
  by (simp add: receivePSIResult_def receivePSIResult_body_def transact_def)

section \<open>The scenario, evaluated\<close>

lemma length_be_bytes [simp]: "length (be_bytes n w) = n"
  by (simp add: be_bytes_def)

lemma length_encodePacked: "length (encodePacked a t ps) = 52 + 32 * length ps"
  by (induction ps) (simp_all add: encodePacked_def)

lemma storage_A_eq:
  "storage_A = init_storage
     \<lparr>setCount := 1,
      encryptedSets := (encryptedSets init_storage)(1 :=
         \<lparr>es_id = 1, es_owner = alice, es_items = [0x11, 0x22, 0x33], es_timestamp = 1000\<rparr>),
      ownerToSetId := (ownerToSetId init_storage)(alice := 1)\<rparr>"
proof -
  have "unat (setCount init_storage) + 1 < 2 ^ 256" by (simp add: init_storage_def)
  from submitEncryptedSet_ok [OF this, of "demo_env alice 1000" "[0x11, 0x22, 0x33]"]
  show ?thesis
    by (simp add: storage_A_def demo_env_def init_storage_def zero_EncryptedSet_def)
qed

lemma storage_AB_eq:
  "storage_AB = init_storage
     \<lparr>setCount := 2,
      encryptedSets := (encryptedSets init_storage)
        (1 := \<lparr>es_id = 1, es_owner = alice, es_items = [0x11, 0x22, 0x33], es_timestamp = 1000\<rparr>,
         2 := \<lparr>es_id = 2, es_owner = bob, es_items = [0x22, 0x33, 0x44, 0x55],
                es_timestamp = 1001\<rparr>),
      ownerToSetId := (ownerToSetId init_storage)(alice := 1, bob := 2)\<rparr>"
proof -
  have "unat (setCount storage_A) + 1 < 2 ^ 256" by (simp add: storage_A_eq)
  from submitEncryptedSet_ok [OF this, of "demo_env bob 1001" "[0x22, 0x33, 0x44, 0x55]"]
  show ?thesis
    by (simp add: storage_AB_def storage_A_eq demo_env_def init_storage_def zero_EncryptedSet_def)
qed

lemma current_items_AB:
  "current_items storage_AB alice = [0x11, 0x22, 0x33]"
  "current_items storage_AB bob = [0x22, 0x33, 0x44, 0x55]"
  "getSetId storage_AB alice = 1" "getSetId storage_AB bob = 2"
  by (simp_all add: current_items_def getEncryptedSetItems_def getSetId_def storage_AB_eq
      alice_def bob_def)

lemma demo_request_outcome:
  "requestMultiPSI (demo_env alice 1002) [alice, bob] False storage_AB =
     (storage_AB\<lparr>psiRequests := (psiRequests storage_AB)(116 := demo_request, 7 := demo_request)\<rparr>,
      Inr \<lparr>returned = 116, logs = [PSIRequested 116],
           dispatched = [([0x11, 0x22, 0x33, 0x22, 0x33, 0x44, 0x55], receivePSIResult_selector)]\<rparr>)"
proof -
  have 1: "2 \<le> length [alice, bob]" by simp
  have 2: "\<forall>p \<in> set [alice, bob]. ownerToSetId storage_AB p \<noteq> 0"
    using current_items_AB(3,4) by (simp add: getSetId_def)
  have 3: "length (concat (map (current_items storage_AB) [alice, bob])) < 2 ^ 256"
    by (simp add: current_items_AB)
  have 4: "FHE_requestComputation (demo_env alice 1002)
             (concat (map (current_items storage_AB) [alice, bob])) receivePSIResult_selector = Inr 7"
    by (simp add: current_items_AB demo_env_def)
  have k: "keccak256 (demo_env alice 1002)
             (encodePacked (msg_sender (demo_env alice 1002))
                (block_timestamp (demo_env alice 1002)) [alice, bob]) = 116"
    by (simp add: demo_env_def length_encodePacked)
  have r: "request_record (demo_env alice 1002) [alice, bob] False = demo_request"
    unfolding request_record_def k by (simp add: demo_request_def demo_env_def)
  show ?thesis
    using requestMultiPSI_ok [OF 1 2 3 4, of False]
    unfolding k r by (simp add: current_items_AB)
qed

lemma demo_checkSignatures:
  "FHE_checkSignatures (demo_env a t) requestId encryptedResult proof = (proof = [0x2A])"
  by (simp add: demo_env_def)

lemma storage_req_eq:
  "storage_req =
     storage_AB\<lparr>psiRequests := (psiRequests storage_AB)(116 := demo_request, 7 := demo_request)\<rparr>"
  by (simp add: storage_req_def demo_request_outcome)

lemma storage_done_eq:
  "storage_done = storage_req\<lparr>psiResults := (psiResults storage_req)(116 := [0x02])\<rparr>"
  by (simp add: storage_done_def receivePSIResult_ok demo_checkSignatures)

section \<open>Set ids along a history\<close>

lemma submitted_ids_append: "submitted_ids (xs @ ys) = submitted_ids xs @ submitted_ids ys"
  by (induction xs rule: submitted_ids.induct) simp_all

lemma requestMultiPSI_storage:
  "\<exists>f. fst (requestMultiPSI e ps so s) = s\<lparr>psiRequests := f\<rparr>"
proof (cases "requestMultiPSI_body e ps so s")
  case (Inl err)
  then have "fst (requestMultiPSI e ps so s) = s\<lparr>psiRequests := psiRequests s\<rparr>"
    by (simp add: requestMultiPSI_def transact_def)
  then show ?thesis by blast
next
  case (Inr x)
  obtain s' rc where x: "x = (s', rc)" by (cases x)
  from requestMultiPSI_body_Inr(4) [OF Inr [unfolded x]]
  obtain f where "s' = s\<lparr>psiRequests := f\<rparr>" by blast
  then have "fst (requestMultiPSI e ps so s) = s\<lparr>psiRequests := f\<rparr>"
    using Inr x by (simp add: requestMultiPSI_def transact_def)
  then show ?thesis by blast
qed

lemma requestMultiPSI_emitted:
  "submitted_ids (emitted (snd (requestMultiPSI e ps so s))) = []"
proof (cases "requestMultiPSI_body e ps so s")
  case (Inl err)
  then show ?thesis by (simp add: requestMultiPSI_def transact_def)
next
  case (Inr x)
  obtain s' rc where x: "x = (s', rc)" by (cases x)
  from requestMultiPSI_body_Inr(3) [OF Inr [unfolded x]] Inr x
  show ?thesis by (simp add: requestMultiPSI_def transact_def)
qed

lemma perform_ids_in_use:
  assumes "ids_in_use s lg" and "perform c s = (s', evs)"
  shows "ids_in_use s' (lg @ evs)"
proof (cases c)
  case (Call_submitEncryptedSet e items)
  show ?thesis
  proof (cases "unat (setCount s) + 1 = 2 ^ 256")
    case True
    from submitEncryptedSet_overflow [OF True, of e items] assms Call_submitEncryptedSet
    show ?thesis by auto
  next
    case False
    then have lt: "unat (setCount s) + 1 < 2 ^ 256"
      using unat_uint256_bound [of "setCount s"] by linarith
    have u: "unat (setCount s + 1) = unat (setCount s) + 1"
      using unat_succ [OF lt] .
    from submitEncryptedSet_ok [OF lt, of e items] assms(2) Call_submitEncryptedSet
    have s': "setCount s' = setCount s + 1"
      and enc: "\<And>k. k \<noteq> setCount s + 1 \<Longrightarrow> encryptedSets s' k = encryptedSets s k"
      and evs: "evs = [EncryptedSetSubmitted (setCount s + 1)]"
      by auto
    have "\<forall>i \<in> set (submitted_ids (lg @ evs)). unat i \<le> unat (setCount s')"
      using assms(1) by (auto simp: ids_in_use_def submitted_ids_append evs s' u)
    moreover have "\<forall>k. unat (setCount s') < unat k \<longrightarrow> encryptedSets s' k = zero_EncryptedSet"
    proof (intro allI impI)
      fix k :: uint256
      assume k: "unat (setCount s') < unat k"
      then have "k \<noteq> setCount s + 1" using s' by auto
      moreover have "unat (setCount s) < unat k" using k s' u by simp
      ultimately show "encryptedSets s' k = zero_EncryptedSet"
        using enc assms(1) by (simp add: ids_in_use_def)
    qed
    ultimately show ?thesis by (simp add: ids_in_use_def)
  qed
next
  case (Call_requestMultiPSI e ps so)
  obtain f where "fst (requestMultiPSI e ps so s) = s\<lparr>psiRequests := f\<rparr>"
    using requestMultiPSI_storage by blast
  with assms Call_requestMultiPSI requestMultiPSI_emitted [of e ps so s]
  show ?thesis
    by (auto simp: ids_in_use_def submitted_ids_append split: prod.splits)
next
  case (Call_receivePSIResult e requestId encryptedResult pf)
  with assms show ?thesis
    by (cases "FHE_checkSignatures e requestId encryptedResult pf")
       (auto simp: ids_in_use_def submitted_ids_append receivePSIResult_ok receivePSIResult_fails)
qed

lemma run_ids_in_use:
  "ids_in_use s lg \<Longrightarrow> run cs (s, lg) = (s', lg') \<Longrightarrow> ids_in_use s' lg'"
proof (induction cs arbitrary: s lg)
  case Nil
  then show ?case by simp
next
  case (Cons c cs)
  obtain s1 evs where p: "perform c s = (s1, evs)" by (cases "perform c s")
  from Cons.prems(2) p have "run cs (s1, lg @ evs) = (s', lg')" by simp
  from Cons.IH [OF perform_ids_in_use [OF Cons.prems(1) p] this] show ?case .
qed

lemma ids_in_use_init: "ids_in_use init_storage []"
  by (simp add: ids_in_use_def init_storage_def)

section \<open>Engine tokens along a history\<close>

lemma requestMultiPSI_body_engine_fails:
  assumes "2 \<le> length ps"
    and "\<forall>p \<in> set ps. ownerToSetId s p \<noteq> 0"
    and "length (concat (map (current_items s) ps)) < 2 ^ 256"
    and "FHE_requestComputation e (concat (map (current_items s) ps)) receivePSIResult_selector
           = Inl err"
  shows "requestMultiPSI_body e ps so s = Inl err"
proof -
  let ?n = "length (concat (map (current_items s) ps))"
  have n: "count_items s ps 0 = Inr ?n"
    using count_items_ok [OF assms(2), of 0] assms(3) by simp
  have g: "gather_items s ps (replicate ?n 0) 0 = Inr (concat (map (current_items s) ps), ?n)"
    using gather_items_after_count [OF n] .
  show ?thesis
    using assms(1) n g assms(4)
    by (simp add: requestMultiPSI_body_def Let_def)
qed







lemma strict_request_outcome:
  "requestMultiPSI (strict_env alice 1002) [alice, bob] False storage_AB =
     (storage_req,
      Inr \<lparr>returned = 116, logs = [PSIRequested 116],
           dispatched = [([0x11, 0x22, 0x33, 0x22, 0x33, 0x44, 0x55], receivePSIResult_selector)]\<rparr>)"
proof -
  have 1: "2 \<le> length [alice, bob]" by simp
  have 2: "\<forall>p \<in> set [alice, bob]. ownerToSetId storage_AB p \<noteq> 0"
    using current_items_AB(3,4) by (simp add: getSetId_def)
  have 3: "length (concat (map (current_items storage_AB) [alice, bob])) < 2 ^ 256"
    by (simp add: current_items_AB)
  have 4: "FHE_requestComputation (strict_env alice 1002)
             (concat (map (current_items storage_AB) [alice, bob])) receivePSIResult_selector = Inr 7"
    by (simp add: current_items_AB strict_env_def)
  have k: "keccak256 (strict_env alice 1002)
             (encodePacked (msg_sender (strict_env alice 1002))
                (block_timestamp (strict_env alice 1002)) [alice, bob]) = 116"
    by (simp add: strict_env_def length_encodePacked)
  have r: "request_record (strict_env alice 1002) [alice, bob] False = demo_request"
    unfolding request_record_def k by (simp add: demo_request_def strict_env_def)
  show ?thesis
    using requestMultiPSI_ok [OF 1 2 3 4, of False]
    unfolding k r by (simp add: current_items_AB storage_req_eq)
qed


section \<open>The result callback\<close>

text \<open>
  C1, as written: after a first verified callback has stored a result, a second callback
  with the same request id is rejected as a duplicate and does not overwrite the stored
  payload. The code has no such check. In the scenario the first callback for request 116
  stores \<open>[0x02]\<close>; the same callback sent again is accepted again and emits the event
  again; and a callback for 116 with the payload \<open>[0x09]\<close> and a passing proof is accepted
  and replaces the stored payload.
\<close>

theorem receivePSIResult_second_callback_accepted:
  "snd (receivePSIResult (demo_env carol 1003) 116 [0x02] [0x2A] storage_req)
     = Inr \<lparr>returned = (), logs = [PSIResultReceived 116], dispatched = []\<rparr>
   \<and> getEncryptedPSIResult storage_done 116 = [0x02]
   \<and> snd (receivePSIResult (demo_env carol 1004) 116 [0x02] [0x2A] storage_done)
     = Inr \<lparr>returned = (), logs = [PSIResultReceived 116], dispatched = []\<rparr>
   \<and> snd (receivePSIResult (demo_env carol 1005) 116 [0x09] [0x2A] storage_done)
     = Inr \<lparr>returned = (), logs = [PSIResultReceived 116], dispatched = []\<rparr>
   \<and> getEncryptedPSIResult
        (fst (receivePSIResult (demo_env carol 1005) 116 [0x09] [0x2A] storage_done)) 116 = [0x09]"
  by (simp add: receivePSIResult_ok demo_checkSignatures storage_done_eq getEncryptedPSIResult_def)

text \<open>
  C1, amended: \<open>receivePSIResult\<close> keeps no record of earlier callbacks and no commit
  time. Every callback that passes \<open>FHE.checkSignatures\<close> is accepted and stores its
  payload under the request id, whatever was stored there before. Sent twice with the same
  request id, payload and proof, it is accepted both times, and the storage after the
  second call is the storage after the first.
\<close>

theorem receivePSIResult_overwrites:
  assumes "FHE_checkSignatures e requestId encryptedResult proof"
  shows "receivePSIResult e requestId encryptedResult proof s =
           (s\<lparr>psiResults := (psiResults s)(requestId := encryptedResult)\<rparr>,
            Inr \<lparr>returned = (), logs = [PSIResultReceived requestId], dispatched = []\<rparr>)
         \<and> receivePSIResult e requestId encryptedResult proof
               (fst (receivePSIResult e requestId encryptedResult proof s))
             = receivePSIResult e requestId encryptedResult proof s"
  using assms by (simp add: receivePSIResult_ok)

theorem receivePSIResult_overwrites_witness:
  "receivePSIResult (demo_env carol 1003) 116 [0x02] [0x2A] storage_req =
     (storage_done, Inr \<lparr>returned = (), logs = [PSIResultReceived 116], dispatched = []\<rparr>)
   \<and> receivePSIResult (demo_env carol 1003) 116 [0x02] [0x2A] storage_done =
     (storage_done, Inr \<lparr>returned = (), logs = [PSIResultReceived 116], dispatched = []\<rparr>)"
proof -
  have h: "FHE_checkSignatures (demo_env carol 1003) 116 [0x02] [0x2A]"
    by (simp add: demo_checkSignatures)
  note w = receivePSIResult_overwrites [OF h, of storage_req]
  have 1: "receivePSIResult (demo_env carol 1003) 116 [0x02] [0x2A] storage_req =
     (storage_done, Inr \<lparr>returned = (), logs = [PSIResultReceived 116], dispatched = []\<rparr>)"
    using w [THEN conjunct1] by (simp add: storage_done_eq)
  have 2: "receivePSIResult (demo_env carol 1003) 116 [0x02] [0x2A] storage_done =
             receivePSIResult (demo_env carol 1003) 116 [0x02] [0x2A] storage_req"
    using w [THEN conjunct2] unfolding 1 by simp
  from 1 2 show ?thesis by simp
qed



text \<open>
  C3, as written: when the proof fails verification, no result is committed and the
  status of the request becomes Failed. The first half holds; the second does not. The
  struct \<open>PSIRequest\<close> has five fields and none is a status, and the failed call reverts:
  in the scenario the request stored under 116 is the same record after a callback with
  the failing proof \<open>[0x00]\<close> as before it, and so is the rest of the storage.
\<close>

theorem receivePSIResult_bad_proof_no_status:
  "psiRequests storage_req 116 = demo_request
   \<and> receivePSIResult (demo_env carol 1003) 116 [0x02] [0x00] storage_req
       = (storage_req, Inl CheckSignaturesFailed)
   \<and> psiRequests (fst (receivePSIResult (demo_env carol 1003) 116 [0x02] [0x00] storage_req)) 116
       = \<lparr>rq_id = 116, rq_requester = alice, rq_participants = [alice, bob],
          rq_sizeOnly = False, rq_timestamp = 1002\<rparr>"
  by (simp add: receivePSIResult_fails demo_checkSignatures storage_req_eq demo_request_def)

text \<open>
  C3, amended: a callback whose proof fails \<open>FHE.checkSignatures\<close> reverts and leaves
  the whole storage as it was: no result is stored for it, and the request record is not
  changed (it has no status field, and nothing records the failure).
\<close>

theorem receivePSIResult_bad_proof_reverts:
  assumes "\<not> FHE_checkSignatures e requestId encryptedResult proof"
  shows "receivePSIResult e requestId encryptedResult proof s = (s, Inl CheckSignaturesFailed)"
  using assms by (rule receivePSIResult_fails)

theorem receivePSIResult_bad_proof_reverts_witness:
  "\<not> FHE_checkSignatures (demo_env carol 1003) 116 [0x02] []
   \<and> receivePSIResult (demo_env carol 1003) 116 [0x02] [] storage_done
       = (storage_done, Inl CheckSignaturesFailed)"
proof -
  have h: "\<not> FHE_checkSignatures (demo_env carol 1003) 116 [0x02] []"
    by (simp add: demo_checkSignatures)
  from receivePSIResult_bad_proof_reverts [OF h, of storage_done] h show ?thesis by simp
qed

text \<open>
  C10. The callback has no caller restriction: whoever sends it and whenever, with the
  same request id, result and proof on the same storage, the storage afterwards and the
  outcome are the same, and the call is accepted exactly when \<open>FHE.checkSignatures\<close>
  passes.
\<close>

theorem receivePSIResult_any_caller:
  "receivePSIResult (e\<lparr>msg_sender := a, block_timestamp := t\<rparr>) requestId encryptedResult proof s
     = receivePSIResult (e\<lparr>msg_sender := b, block_timestamp := t'\<rparr>) requestId encryptedResult proof s
   \<and> (isl (snd (receivePSIResult (e\<lparr>msg_sender := a\<rparr>) requestId encryptedResult proof s))
        = (\<not> FHE_checkSignatures e requestId encryptedResult proof))"
  by (simp add: receivePSIResult_def receivePSIResult_body_def transact_def Let_def)

theorem receivePSIResult_any_caller_witness:
  "receivePSIResult (demo_env alice 1003) 116 [0x02] [0x2A] storage_req
     = receivePSIResult (demo_env carol 1004) 116 [0x02] [0x2A] storage_req
   \<and> \<not> isl (snd (receivePSIResult (demo_env alice 1003) 116 [0x02] [0x2A] storage_req))"
proof -
  have e1: "(demo_env alice 1003)\<lparr>msg_sender := alice, block_timestamp := 1003\<rparr>
              = demo_env alice 1003"
    and e2: "(demo_env alice 1003)\<lparr>msg_sender := carol, block_timestamp := 1004\<rparr>
              = demo_env carol 1004"
    and e3: "(demo_env alice 1003)\<lparr>msg_sender := alice\<rparr> = demo_env alice 1003"
    and e4: "(demo_env alice 1003)\<lparr>block_timestamp := 1003\<rparr> = demo_env alice 1003"
    by (simp_all add: demo_env_def)
  have chk: "FHE_checkSignatures (demo_env alice 1003) 116 [0x02] [0x2A]"
    by (simp add: demo_checkSignatures)
  note w = receivePSIResult_any_caller
          [of 1003 alice "demo_env alice 1003" 116 "[0x02]" "[0x2A]" storage_req 1004 carol,
           unfolded e1 e2 e3 e4]
  from w [THEN conjunct1] w [THEN conjunct2] chk show ?thesis by simp
qed

section \<open>Requesting a computation\<close>

text \<open>
  C4. Every \<open>requestMultiPSI\<close> call that does not revert returns
  \<open>keccak256(abi.encodePacked(msg.sender, block.timestamp, participants))\<close>: the hash of
  the requester, the current timestamp and the participant list, concatenated.
\<close>

theorem requestMultiPSI_returns_hash:
  assumes "requestMultiPSI e participants sizeOnly s = (s', Inr rc)"
  shows "returned rc = keccak256 e (encodePacked (msg_sender e) (block_timestamp e) participants)"
proof -
  from assms have "requestMultiPSI_body e participants sizeOnly s = Inr (s', rc)"
    by (simp add: requestMultiPSI_def transact_Inr)
  from requestMultiPSI_body_Inr(3) [OF this] show ?thesis by simp
qed

theorem requestMultiPSI_returns_hash_witness:
  "requestMultiPSI (demo_env alice 1002) [alice, bob] False storage_AB =
     (storage_req, Inr \<lparr>returned = 116, logs = [PSIRequested 116],
           dispatched = [([0x11, 0x22, 0x33, 0x22, 0x33, 0x44, 0x55], receivePSIResult_selector)]\<rparr>)
   \<and> keccak256 (demo_env alice 1002)
        (encodePacked (msg_sender (demo_env alice 1002)) (block_timestamp (demo_env alice 1002))
           [alice, bob]) = 116"
proof -
  have h: "requestMultiPSI (demo_env alice 1002) [alice, bob] False storage_AB =
     (storage_req, Inr \<lparr>returned = 116, logs = [PSIRequested 116],
           dispatched = [([0x11, 0x22, 0x33, 0x22, 0x33, 0x44, 0x55], receivePSIResult_selector)]\<rparr>)"
    by (simp add: storage_req_def demo_request_outcome)
  from requestMultiPSI_returns_hash [OF h] h show ?thesis by simp
qed

text \<open>
  C5. After a \<open>requestMultiPSI\<close> call that did not revert, the token the engine returned
  for the dispatched handles and the returned request id lead to equal request records:
  the record written at the head of the function, copied under the token by
  \<open>psiRequests[fheReq] = r\<close>.
\<close>

theorem requestMultiPSI_token_and_id_same_record:
  assumes "requestMultiPSI e participants sizeOnly s = (s', Inr rc)"
    and "dispatched rc = [(allCiphertexts, sel)]"
    and "FHE_requestComputation e allCiphertexts sel = Inr fheReq"
  shows "psiRequests s' fheReq = psiRequests s' (returned rc)
         \<and> psiRequests s' (returned rc) = request_record e participants sizeOnly"
proof -
  from assms(1) have b: "requestMultiPSI_body e participants sizeOnly s = Inr (s', rc)"
    by (simp add: requestMultiPSI_def transact_Inr)
  from requestMultiPSI_body_Inr(3) [OF b] assms(2)
  have cts: "allCiphertexts = concat (map (current_items s) participants)"
    and sel: "sel = receivePSIResult_selector"
    and ret: "returned rc = keccak256 e (encodePacked (msg_sender e) (block_timestamp e) participants)"
    by simp_all
  from requestMultiPSI_body_Inr(4) [OF b] assms(3)
  have "s' = s\<lparr>psiRequests := (psiRequests s)
                 (returned rc := request_record e participants sizeOnly,
                  fheReq := request_record e participants sizeOnly)\<rparr>"
    unfolding cts sel ret by auto
  then show ?thesis by simp
qed

theorem requestMultiPSI_token_and_id_same_record_witness:
  "psiRequests storage_req 7 = psiRequests storage_req 116
   \<and> psiRequests storage_req 116 = demo_request"
proof -
  let ?rc = "\<lparr>returned = 116 :: uint256, logs = [PSIRequested 116],
           dispatched = [([0x11, 0x22, 0x33, 0x22, 0x33, 0x44, 0x55 :: bytes32],
                          receivePSIResult_selector)]\<rparr>"
  have h: "requestMultiPSI (demo_env alice 1002) [alice, bob] False storage_AB =
             (storage_req, Inr ?rc)"
    by (simp add: storage_req_def demo_request_outcome)
  have d: "dispatched ?rc = [([0x11, 0x22, 0x33, 0x22, 0x33, 0x44, 0x55], receivePSIResult_selector)]"
    by simp
  have t: "FHE_requestComputation (demo_env alice 1002) [0x11, 0x22, 0x33, 0x22, 0x33, 0x44, 0x55]
             receivePSIResult_selector = Inr 7"
    by (simp add: demo_env_def)
  have r: "request_record (demo_env alice 1002) [alice, bob] False = demo_request"
    by (simp add: request_record_def demo_request_def demo_env_def length_encodePacked)
  from requestMultiPSI_token_and_id_same_record [OF h d t] r show ?thesis by simp
qed

text \<open>
  C6. In a \<open>requestMultiPSI\<close> call that does not revert, the array handed to the engine
  is the concatenation, in the order of the participant list, of the items of each
  participant's current set, each in its stored order; for the participants \<open>[A, B]\<close> it
  is the items of A's set followed by the items of B's set. The engine is a function of the
  array it is given, so what it is given shows in what the call does with its answer: the
  call goes through only if the engine takes that very array, the request is then stored
  under the token the engine returns for that array, and if the engine refuses that array
  a request that passed validation reverts with the engine's error.
\<close>

theorem requestMultiPSI_dispatches_concat:
  "(requestMultiPSI e participants sizeOnly s = (s', Inr rc) \<longrightarrow>
      map fst (dispatched rc) = [concat (map (current_items s) participants)]
      \<and> (participants = [A, B] \<longrightarrow>
            map fst (dispatched rc) = [current_items s A @ current_items s B])
      \<and> (\<exists>fheReq.
            FHE_requestComputation e (concat (map (current_items s) participants))
              receivePSIResult_selector = Inr fheReq
            \<and> s' = s\<lparr>psiRequests := (psiRequests s)
                       (returned rc := request_record e participants sizeOnly,
                        fheReq := request_record e participants sizeOnly)\<rparr>))
   \<and> (2 \<le> length participants \<and> (\<forall>p \<in> set participants. getSetId s p \<noteq> 0)
        \<and> length (concat (map (current_items s) participants)) < 2 ^ 256
        \<and> FHE_requestComputation e (concat (map (current_items s) participants))
              receivePSIResult_selector = Inl err \<longrightarrow>
      requestMultiPSI e participants sizeOnly s = (s, Inl err))
   \<and> (2 \<le> length participants \<and> (\<forall>p \<in> set participants. getSetId s p \<noteq> 0)
        \<and> length (concat (map (current_items s) participants)) < 2 ^ 256
        \<and> FHE_requestComputation e (concat (map (current_items s) participants))
              receivePSIResult_selector = Inr token \<longrightarrow>
      requestMultiPSI e participants sizeOnly s =
        (s\<lparr>psiRequests := (psiRequests s)
             (keccak256 e (encodePacked (msg_sender e) (block_timestamp e) participants)
                := request_record e participants sizeOnly,
              token := request_record e participants sizeOnly)\<rparr>,
         Inr \<lparr>returned = keccak256 e (encodePacked (msg_sender e) (block_timestamp e) participants),
              logs = [PSIRequested
                        (keccak256 e (encodePacked (msg_sender e) (block_timestamp e) participants))],
              dispatched = [(concat (map (current_items s) participants),
                             receivePSIResult_selector)]\<rparr>))"
proof (intro conjI impI)
  assume ok: "requestMultiPSI e participants sizeOnly s = (s', Inr rc)"
  then have b: "requestMultiPSI_body e participants sizeOnly s = Inr (s', rc)"
    by (simp add: requestMultiPSI_def transact_Inr)
  note rc = requestMultiPSI_body_Inr(3) [OF b]
  from rc show "map fst (dispatched rc) = [concat (map (current_items s) participants)]"
    by simp
  from rc have ret: "returned rc =
      keccak256 e (encodePacked (msg_sender e) (block_timestamp e) participants)"
    by simp
  from requestMultiPSI_body_Inr(4) [OF b]
  show "\<exists>fheReq.
            FHE_requestComputation e (concat (map (current_items s) participants))
              receivePSIResult_selector = Inr fheReq
            \<and> s' = s\<lparr>psiRequests := (psiRequests s)
                       (returned rc := request_record e participants sizeOnly,
                        fheReq := request_record e participants sizeOnly)\<rparr>"
    unfolding ret .
  assume "participants = [A, B]"
  with rc show "map fst (dispatched rc) = [current_items s A @ current_items s B]"
    by simp
next
  assume a: "2 \<le> length participants \<and> (\<forall>p \<in> set participants. getSetId s p \<noteq> 0)
        \<and> length (concat (map (current_items s) participants)) < 2 ^ 256
        \<and> FHE_requestComputation e (concat (map (current_items s) participants))
              receivePSIResult_selector = Inl err"
  then have 1: "2 \<le> length participants"
    and 2: "\<forall>p \<in> set participants. ownerToSetId s p \<noteq> 0"
    and 3: "length (concat (map (current_items s) participants)) < 2 ^ 256"
    and 4: "FHE_requestComputation e (concat (map (current_items s) participants))
              receivePSIResult_selector = Inl err"
    by (simp_all add: getSetId_def)
  show "requestMultiPSI e participants sizeOnly s = (s, Inl err)"
    unfolding requestMultiPSI_def transact_Inl
    using requestMultiPSI_body_engine_fails [OF 1 2 3 4] by simp
next
  assume a: "2 \<le> length participants \<and> (\<forall>p \<in> set participants. getSetId s p \<noteq> 0)
        \<and> length (concat (map (current_items s) participants)) < 2 ^ 256
        \<and> FHE_requestComputation e (concat (map (current_items s) participants))
              receivePSIResult_selector = Inr token"
  then have 1: "2 \<le> length participants"
    and 2: "\<forall>p \<in> set participants. ownerToSetId s p \<noteq> 0"
    and 3: "length (concat (map (current_items s) participants)) < 2 ^ 256"
    and 4: "FHE_requestComputation e (concat (map (current_items s) participants))
              receivePSIResult_selector = Inr token"
    by (simp_all add: getSetId_def)
  from requestMultiPSI_ok [OF 1 2 3 4, of sizeOnly]
  show "requestMultiPSI e participants sizeOnly s =
        (s\<lparr>psiRequests := (psiRequests s)
             (keccak256 e (encodePacked (msg_sender e) (block_timestamp e) participants)
                := request_record e participants sizeOnly,
              token := request_record e participants sizeOnly)\<rparr>,
         Inr \<lparr>returned = keccak256 e (encodePacked (msg_sender e) (block_timestamp e) participants),
              logs = [PSIRequested
                        (keccak256 e (encodePacked (msg_sender e) (block_timestamp e) participants))],
              dispatched = [(concat (map (current_items s) participants),
                             receivePSIResult_selector)]\<rparr>)" .
qed

theorem requestMultiPSI_dispatches_concat_witness:
  "requestMultiPSI (strict_env alice 1002) [alice, bob] False storage_AB =
     (storage_req,
      Inr \<lparr>returned = 116, logs = [PSIRequested 116],
           dispatched = [([0x11, 0x22, 0x33, 0x22, 0x33, 0x44, 0x55], receivePSIResult_selector)]\<rparr>)
   \<and> current_items storage_AB alice @ current_items storage_AB bob
       = [0x11, 0x22, 0x33, 0x22, 0x33, 0x44, 0x55]
   \<and> FHE_requestComputation (strict_env alice 1002) [] receivePSIResult_selector
       = Inl RequestComputationFailed
   \<and> FHE_requestComputation (strict_env alice 1002)
        (current_items storage_AB bob @ current_items storage_AB alice) receivePSIResult_selector
       = Inl RequestComputationFailed
   \<and> requestMultiPSI (strict_env alice 1002) [bob, alice] False storage_AB =
       (storage_AB, Inl RequestComputationFailed)"
proof -
  note w = requestMultiPSI_dispatches_concat
  have h: "requestMultiPSI (strict_env alice 1002) [alice, bob] False storage_AB =
     (storage_req,
      Inr \<lparr>returned = 116, logs = [PSIRequested 116],
           dispatched = [([0x11, 0x22, 0x33, 0x22, 0x33, 0x44, 0x55], receivePSIResult_selector)]\<rparr>)"
    by (rule strict_request_outcome)
  from w [THEN conjunct1, rule_format, OF h, THEN conjunct2, THEN conjunct1, of alice bob]
  have ab: "current_items storage_AB alice @ current_items storage_AB bob
       = [0x11, 0x22, 0x33, 0x22, 0x33, 0x44, 0x55]"
    by simp
  have e0: "FHE_requestComputation (strict_env alice 1002) [] receivePSIResult_selector
       = Inl RequestComputationFailed"
    by (simp add: strict_env_def)
  have ba: "FHE_requestComputation (strict_env alice 1002)
        (current_items storage_AB bob @ current_items storage_AB alice) receivePSIResult_selector
       = Inl RequestComputationFailed"
    by (simp add: strict_env_def current_items_AB)
  have pre: "2 \<le> length [bob, alice] \<and> (\<forall>p \<in> set [bob, alice]. getSetId storage_AB p \<noteq> 0)
        \<and> length (concat (map (current_items storage_AB) [bob, alice])) < 2 ^ 256
        \<and> FHE_requestComputation (strict_env alice 1002)
             (concat (map (current_items storage_AB) [bob, alice]))
              receivePSIResult_selector = Inl RequestComputationFailed"
    using ba by (simp add: current_items_AB)
  from w [THEN conjunct2, THEN conjunct1, rule_format, OF pre]
  have rev: "requestMultiPSI (strict_env alice 1002) [bob, alice] False storage_AB =
       (storage_AB, Inl RequestComputationFailed)" .
  from h ab e0 ba rev show ?thesis by simp
qed

text \<open>
  C7, as written: a request for \<open>[A]\<close> always fails validation, and so does a request for
  \<open>[A, A]\<close>. The first half holds; the code counts the participants and does not compare
  them. In the scenario, once Alice has submitted her set, a request for \<open>[alice, alice]\<close>
  is accepted, stores the request and dispatches her three handles twice.
\<close>

theorem requestMultiPSI_duplicate_accepted:
  "requestMultiPSI (demo_env bob 1002) [alice, alice] False storage_A =
     (storage_A\<lparr>psiRequests := (psiRequests storage_A)
        (116 := \<lparr>rq_id = 116, rq_requester = bob, rq_participants = [alice, alice],
                  rq_sizeOnly = False, rq_timestamp = 1002\<rparr>,
         6 := \<lparr>rq_id = 116, rq_requester = bob, rq_participants = [alice, alice],
                  rq_sizeOnly = False, rq_timestamp = 1002\<rparr>)\<rparr>,
      Inr \<lparr>returned = 116, logs = [PSIRequested 116],
           dispatched = [([0x11, 0x22, 0x33, 0x11, 0x22, 0x33], receivePSIResult_selector)]\<rparr>)"
proof -
  have ci: "current_items storage_A alice = [0x11, 0x22, 0x33]"
    by (simp add: current_items_def getEncryptedSetItems_def getSetId_def storage_A_eq alice_def)
  have 1: "2 \<le> length [alice, alice]" by simp
  have 2: "\<forall>p \<in> set [alice, alice]. ownerToSetId storage_A p \<noteq> 0"
    by (simp add: storage_A_eq)
  have 3: "length (concat (map (current_items storage_A) [alice, alice])) < 2 ^ 256"
    by (simp add: ci)
  have 4: "FHE_requestComputation (demo_env bob 1002)
             (concat (map (current_items storage_A) [alice, alice])) receivePSIResult_selector = Inr 6"
    by (simp add: ci demo_env_def)
  have k: "keccak256 (demo_env bob 1002)
             (encodePacked (msg_sender (demo_env bob 1002))
                (block_timestamp (demo_env bob 1002)) [alice, alice]) = 116"
    by (simp add: demo_env_def length_encodePacked)
  have r: "request_record (demo_env bob 1002) [alice, alice] False =
             \<lparr>rq_id = 116, rq_requester = bob, rq_participants = [alice, alice],
                  rq_sizeOnly = False, rq_timestamp = 1002\<rparr>"
    unfolding request_record_def k by (simp add: demo_env_def)
  show ?thesis
    using requestMultiPSI_ok [OF 1 2 3 4, of False]
    unfolding k r by (simp add: ci)
qed

text \<open>
  C7, amended: a request with fewer than two participants, \<open>[A]\<close> in particular, always
  fails with "Need >=2 participants". The participants need not be distinct: a request
  for \<open>[A, A]\<close> fails with "Participant missing set" when A has no current set, and
  otherwise passes validation and is dispatched with A's items twice (as long as the
  engine takes the request and the item count fits a \<open>uint256\<close>).
\<close>

theorem requestMultiPSI_participant_count:
  "(length participants < 2 \<longrightarrow>
      requestMultiPSI e participants sizeOnly s = (s, Inl (Require ''Need >=2 participants'')))
   \<and> (getSetId s A = 0 \<and> 2 * length (current_items s A) < 2 ^ 256 \<longrightarrow>
      requestMultiPSI e [A, A] sizeOnly s = (s, Inl (Require ''Participant missing set'')))
   \<and> (getSetId s A \<noteq> 0 \<and> 2 * length (current_items s A) < 2 ^ 256
        \<and> FHE_requestComputation e (current_items s A @ current_items s A)
              receivePSIResult_selector = Inr fheReq \<longrightarrow>
      snd (requestMultiPSI e [A, A] sizeOnly s) =
        Inr \<lparr>returned = keccak256 e (encodePacked (msg_sender e) (block_timestamp e) [A, A]),
             logs = [PSIRequested (keccak256 e (encodePacked (msg_sender e) (block_timestamp e) [A, A]))],
             dispatched = [(current_items s A @ current_items s A, receivePSIResult_selector)]\<rparr>)"
proof (intro conjI impI)
  assume "length participants < 2"
  then show "requestMultiPSI e participants sizeOnly s = (s, Inl (Require ''Need >=2 participants''))"
    by (simp add: requestMultiPSI_def transact_def requestMultiPSI_body_def)
next
  assume a: "getSetId s A = 0 \<and> 2 * length (current_items s A) < 2 ^ 256"
  have 1: "2 \<le> length [A, A]" by simp
  have 2: "\<exists>p \<in> set [A, A]. ownerToSetId s p = 0" using a by (simp add: getSetId_def)
  have 3: "length (concat (map (current_items s) [A, A])) < 2 ^ 256" using a by simp
  show "requestMultiPSI e [A, A] sizeOnly s = (s, Inl (Require ''Participant missing set''))"
    unfolding requestMultiPSI_def transact_Inl
    using requestMultiPSI_body_missing [OF 1 2 3] by simp
next
  assume a: "getSetId s A \<noteq> 0 \<and> 2 * length (current_items s A) < 2 ^ 256
        \<and> FHE_requestComputation e (current_items s A @ current_items s A)
              receivePSIResult_selector = Inr fheReq"
  have 1: "2 \<le> length [A, A]" by simp
  have 2: "\<forall>p \<in> set [A, A]. ownerToSetId s p \<noteq> 0" using a by (simp add: getSetId_def)
  have 3: "length (concat (map (current_items s) [A, A])) < 2 ^ 256" using a by simp
  have 4: "FHE_requestComputation e (concat (map (current_items s) [A, A]))
             receivePSIResult_selector = Inr fheReq" using a by simp
  from requestMultiPSI_ok [OF 1 2 3 4, of sizeOnly]
  show "snd (requestMultiPSI e [A, A] sizeOnly s) =
        Inr \<lparr>returned = keccak256 e (encodePacked (msg_sender e) (block_timestamp e) [A, A]),
             logs = [PSIRequested (keccak256 e (encodePacked (msg_sender e) (block_timestamp e) [A, A]))],
             dispatched = [(current_items s A @ current_items s A, receivePSIResult_selector)]\<rparr>"
    by simp
qed

theorem requestMultiPSI_participant_count_witness:
  "requestMultiPSI (demo_env alice 1002) [alice] False storage_A
     = (storage_A, Inl (Require ''Need >=2 participants''))
   \<and> requestMultiPSI (demo_env alice 1002) [bob, bob] False storage_A
     = (storage_A, Inl (Require ''Participant missing set''))
   \<and> snd (requestMultiPSI (demo_env alice 1002) [alice, alice] False storage_A)
     = Inr \<lparr>returned = 116, logs = [PSIRequested 116],
           dispatched = [([0x11, 0x22, 0x33, 0x11, 0x22, 0x33], receivePSIResult_selector)]\<rparr>"
proof -
  have ca: "current_items storage_A alice = [0x11, 0x22, 0x33]" "getSetId storage_A alice = 1"
    by (simp_all add: current_items_def getEncryptedSetItems_def getSetId_def storage_A_eq alice_def)
  have cb: "current_items storage_A bob = []" "getSetId storage_A bob = 0"
    by (simp_all add: current_items_def getEncryptedSetItems_def getSetId_def storage_A_eq
        alice_def bob_def init_storage_def zero_EncryptedSet_def)
  have k: "keccak256 (demo_env alice 1002) bs = of_nat (length bs)"
          "msg_sender (demo_env alice 1002) = alice"
          "block_timestamp (demo_env alice 1002) = 1002"
          "FHE_requestComputation (demo_env alice 1002) cts sel = Inr (of_nat (length cts))"
    for bs cts sel
    by (simp_all add: demo_env_def)
  have 1: "requestMultiPSI (demo_env alice 1002) [alice] False storage_A
     = (storage_A, Inl (Require ''Need >=2 participants''))"
    using requestMultiPSI_participant_count
      [of "[alice]" "demo_env alice 1002" False storage_A alice 6]
    by simp
  have 2: "requestMultiPSI (demo_env alice 1002) [bob, bob] False storage_A
     = (storage_A, Inl (Require ''Participant missing set''))"
    using requestMultiPSI_participant_count
      [of "[alice]" "demo_env alice 1002" False storage_A bob 6]
    by (simp add: cb)
  have 3: "snd (requestMultiPSI (demo_env alice 1002) [alice, alice] False storage_A)
     = Inr \<lparr>returned = 116, logs = [PSIRequested 116],
           dispatched = [([0x11, 0x22, 0x33, 0x11, 0x22, 0x33], receivePSIResult_selector)]\<rparr>"
    using requestMultiPSI_participant_count
      [of "[alice]" "demo_env alice 1002" False storage_A alice 6]
    by (simp add: ca k length_encodePacked)
  from 1 2 3 show ?thesis by simp
qed

text \<open>
  C8. A rejected request changes nothing. Whenever \<open>requestMultiPSI\<close> aborts, for
  whatever reason, the storage after the call is the storage before it, although the
  request struct is written before the participants are checked. With fewer than two
  participants the call aborts with "Need >=2 participants"; with two or more, one of
  which has no current set, it aborts with "Participant missing set" (the bound on the
  number of items keeps the checked addition of \<open>totalItems\<close> from aborting first).
\<close>

theorem requestMultiPSI_rejection_atomic:
  "(snd (requestMultiPSI e participants sizeOnly s) = Inl err \<longrightarrow>
      fst (requestMultiPSI e participants sizeOnly s) = s)
   \<and> (length participants < 2 \<longrightarrow>
      requestMultiPSI e participants sizeOnly s = (s, Inl (Require ''Need >=2 participants'')))
   \<and> (2 \<le> length participants \<and> (\<exists>p \<in> set participants. getSetId s p = 0)
        \<and> length (concat (map (current_items s) participants)) < 2 ^ 256 \<longrightarrow>
      requestMultiPSI e participants sizeOnly s = (s, Inl (Require ''Participant missing set'')))"
proof (intro conjI impI)
  assume "snd (requestMultiPSI e participants sizeOnly s) = Inl err"
  then show "fst (requestMultiPSI e participants sizeOnly s) = s"
    by (auto simp: requestMultiPSI_def transact_def split: sum.splits)
next
  assume "length participants < 2"
  then show "requestMultiPSI e participants sizeOnly s = (s, Inl (Require ''Need >=2 participants''))"
    by (simp add: requestMultiPSI_def transact_def requestMultiPSI_body_def)
next
  assume a: "2 \<le> length participants \<and> (\<exists>p \<in> set participants. getSetId s p = 0)
        \<and> length (concat (map (current_items s) participants)) < 2 ^ 256"
  then have 1: "2 \<le> length participants"
    and 2: "\<exists>p \<in> set participants. ownerToSetId s p = 0"
    and 3: "length (concat (map (current_items s) participants)) < 2 ^ 256"
    by (simp_all add: getSetId_def)
  show "requestMultiPSI e participants sizeOnly s = (s, Inl (Require ''Participant missing set''))"
    unfolding requestMultiPSI_def transact_Inl
    using requestMultiPSI_body_missing [OF 1 2 3] by simp
qed

theorem requestMultiPSI_rejection_atomic_witness:
  "requestMultiPSI (demo_env alice 1002) [alice, bob] True storage_A
     = (storage_A, Inl (Require ''Participant missing set''))
   \<and> requestMultiPSI (demo_env alice 1002) [] True storage_A
     = (storage_A, Inl (Require ''Need >=2 participants''))"
proof -
  have ca: "current_items storage_A alice = [0x11, 0x22, 0x33]" "getSetId storage_A alice = 1"
    by (simp_all add: current_items_def getEncryptedSetItems_def getSetId_def storage_A_eq alice_def)
  have cb: "current_items storage_A bob = []" "getSetId storage_A bob = 0"
    by (simp_all add: current_items_def getEncryptedSetItems_def getSetId_def storage_A_eq
        alice_def bob_def init_storage_def zero_EncryptedSet_def)
  have 1: "requestMultiPSI (demo_env alice 1002) [alice, bob] True storage_A
     = (storage_A, Inl (Require ''Participant missing set''))"
    using requestMultiPSI_rejection_atomic
      [of "demo_env alice 1002" "[alice, bob]" True storage_A "Require ''Participant missing set''"]
    by (simp add: ca cb)
  have 2: "requestMultiPSI (demo_env alice 1002) [] True storage_A
     = (storage_A, Inl (Require ''Need >=2 participants''))"
    using requestMultiPSI_rejection_atomic
      [of "demo_env alice 1002" "[]" True storage_A "Require ''Need >=2 participants''"]
    by simp
  from 1 2 show ?thesis by simp
qed

section \<open>Submitting a set\<close>

text \<open>
  C9, as written: every \<open>submitEncryptedSet\<close> call assigns a fresh id, returns it, and
  afterwards \<open>getSetId\<close> of the owner is that id. The function is declared without a
  return value: Alice's first submission returns nothing, and the id 1 is known only from
  the event and from \<open>getSetId\<close>. And not every call assigns an id: with the counter
  at its maximum \<open>2^256 - 1\<close> the checked increment aborts the call, and the owner has no
  set afterwards.
\<close>

theorem submitEncryptedSet_returns_nothing:
  "submitEncryptedSet (demo_env alice 1000) [0x11, 0x22, 0x33] init_storage =
     (storage_A, Inr \<lparr>returned = (), logs = [EncryptedSetSubmitted 1], dispatched = []\<rparr>)
   \<and> submitEncryptedSet (demo_env alice 1000) [0x11, 0x22, 0x33] (init_storage\<lparr>setCount := - 1\<rparr>) =
     (init_storage\<lparr>setCount := - 1\<rparr>, Inl (Panic 0x11))
   \<and> getSetId (init_storage\<lparr>setCount := - 1\<rparr>) alice = 0"
proof -
  have "unat (setCount init_storage) + 1 < 2 ^ 256" by (simp add: init_storage_def)
  from submitEncryptedSet_ok [OF this, of "demo_env alice 1000" "[0x11, 0x22, 0x33]"]
  have 1: "submitEncryptedSet (demo_env alice 1000) [0x11, 0x22, 0x33] init_storage =
     (storage_A, Inr \<lparr>returned = (), logs = [EncryptedSetSubmitted 1], dispatched = []\<rparr>)"
    by (simp add: storage_A_def init_storage_def)
  have "unat (setCount (init_storage\<lparr>setCount := - 1\<rparr>)) + 1 = 2 ^ 256"
    by (simp add: unsigned_minus_1_eq_mask mask_eq_exp_minus_1)
  from submitEncryptedSet_overflow [OF this] 1 show ?thesis
    by (simp add: getSetId_def init_storage_def)
qed

text \<open>
  C9, amended: on any storage reached from deployment by calls of the contract, a
  \<open>submitEncryptedSet\<close> call reverts only when \<open>setCount\<close> is \<open>2^256 - 1\<close>. Otherwise it
  assigns the id \<open>setCount + 1\<close>, which is not 0, differs from every id announced before
  and names a slot never written; it announces the id in the event
  \<open>EncryptedSetSubmitted\<close> and returns no value; the slot then holds the submitted items
  with the sender as owner; and immediately afterwards \<open>getSetId\<close> of the sender is that
  id.
\<close>

theorem submitEncryptedSet_fresh_id:
  assumes "run calls (init_storage, []) = (s, lg)"
  shows "if unat (setCount s) + 1 = 2 ^ 256
         then submitEncryptedSet e items s = (s, Inl (Panic 0x11))
         else snd (submitEncryptedSet e items s) =
                Inr \<lparr>returned = (), logs = [EncryptedSetSubmitted (setCount s + 1)],
                     dispatched = []\<rparr>
              \<and> setCount s + 1 \<notin> set (submitted_ids lg)
              \<and> setCount s + 1 \<noteq> 0
              \<and> encryptedSets s (setCount s + 1) = zero_EncryptedSet
              \<and> encryptedSets (fst (submitEncryptedSet e items s)) (setCount s + 1) =
                  \<lparr>es_id = setCount s + 1, es_owner = msg_sender e, es_items = items,
                   es_timestamp = block_timestamp e\<rparr>
              \<and> getSetId (fst (submitEncryptedSet e items s)) (msg_sender e) = setCount s + 1"
proof (cases "unat (setCount s) + 1 = 2 ^ 256")
  case True
  with submitEncryptedSet_overflow [OF True, of e items] show ?thesis by simp
next
  case False
  then have lt: "unat (setCount s) + 1 < 2 ^ 256"
    using unat_uint256_bound [of "setCount s"] by linarith
  have u: "unat (setCount s + 1) = unat (setCount s) + 1"
    using unat_succ [OF lt] .
  have inv: "ids_in_use s lg"
    using run_ids_in_use [OF ids_in_use_init assms] .
  have fresh: "setCount s + 1 \<notin> set (submitted_ids lg)"
  proof
    assume "setCount s + 1 \<in> set (submitted_ids lg)"
    with inv have "unat (setCount s + 1) \<le> unat (setCount s)" by (simp add: ids_in_use_def)
    with u show False by simp
  qed
  have nz: "setCount s + 1 \<noteq> 0"
  proof
    assume "setCount s + 1 = 0"
    then have "unat (setCount s + 1) = 0" by simp
    with u show False by simp
  qed
  have unused: "encryptedSets s (setCount s + 1) = zero_EncryptedSet"
    using inv u by (simp add: ids_in_use_def)
  show ?thesis
    using False fresh nz unused submitEncryptedSet_ok [OF lt, of e items]
    by (simp add: getSetId_def zero_EncryptedSet_def del: power_numeral)
qed

theorem submitEncryptedSet_fresh_id_witness:
  "run [Call_submitEncryptedSet (demo_env alice 1000) [0x11, 0x22, 0x33]] (init_storage, [])
     = (storage_A, [EncryptedSetSubmitted 1])
   \<and> snd (submitEncryptedSet (demo_env bob 1001) [0x22, 0x33, 0x44, 0x55] storage_A) =
       Inr \<lparr>returned = (), logs = [EncryptedSetSubmitted 2], dispatched = []\<rparr>
   \<and> 2 \<notin> set (submitted_ids [EncryptedSetSubmitted 1])
   \<and> getSetId storage_AB bob = 2"
proof -
  have "unat (setCount init_storage) + 1 < 2 ^ 256" by (simp add: init_storage_def)
  from submitEncryptedSet_ok [OF this, of "demo_env alice 1000" "[0x11, 0x22, 0x33]"]
  have h: "run [Call_submitEncryptedSet (demo_env alice 1000) [0x11, 0x22, 0x33]] (init_storage, [])
     = (storage_A, [EncryptedSetSubmitted 1])"
    by (simp add: storage_A_def init_storage_def)
  have c: "setCount storage_A = 1" by (simp add: storage_A_eq)
  from submitEncryptedSet_fresh_id [OF h, of "demo_env bob 1001" "[0x22, 0x33, 0x44, 0x55]"] h
  show ?thesis
    unfolding c by (simp add: storage_AB_def demo_env_def)
qed

end
